theory Spec2Isabelle
  imports Main
begin

section \<open>Fashion recommender: the recommendation pipeline of app.py\<close>

text \<open>
  The development embeds the four pipeline functions of \<^verbatim>\<open>app.py\<close>:
  \<^verbatim>\<open>get_recommendations\<close>, \<^verbatim>\<open>recommend_similar_images\<close>,
  \<^verbatim>\<open>get_combination_feedback\<close> and \<^verbatim>\<open>recommend_complementary_products\<close>.
  Calls into numpy, scikit-learn, the json module and PIL are not code of the repository;
  each is an argument of the function that calls it, so that every theorem holds for
  whatever the library computes. Exceptions are values of \<open>py_error\<close>; the ValueError
  of scikit-learn's argument validation is written out for the visual engine.
\<close>

datatype py_error = IndexError | AttributeError | JSONDecodeError | ValueError

subsection \<open>Ranking: argsort and slicing\<close>

text \<open>
  \<^verbatim>\<open>ndarray.argsort()\<close> returns the positions of an array in ascending order of
  their values. Its default kind is not stable, so the functions below take the argsort
  as an argument. \<open>argsort_ok\<close> is what every kind guarantees on a vector \<open>v\<close> without
  NaN (such scores are linearly ordered): a permutation of the positions whose values
  ascend. \<open>argsort_stable\<close> adds that equal values keep their positions' order.
\<close>

definition argsort_ok :: "('a::linorder list \<Rightarrow> nat list) \<Rightarrow> 'a list \<Rightarrow> bool" where
  "argsort_ok argsort v =
     (distinct (argsort v) \<and> set (argsort v) = {0..<length v} \<and>
      sorted (map ((!) v) (argsort v)))"

definition argsort_stable :: "('a::linorder list \<Rightarrow> nat list) \<Rightarrow> 'a list \<Rightarrow> bool" where
  "argsort_stable argsort v =
     (distinct (argsort v) \<and> set (argsort v) = {0..<length v} \<and>
      sorted_wrt (\<lambda>i j. v ! i < v ! j \<or> (v ! i = v ! j \<and> i < j)) (argsort v))"

text \<open>
  One argsort, used to evaluate the functions on concrete inputs: the insertion sort that
  numpy's introsort runs on a short array. Position \<open>i\<close> moves left past every position
  whose value is strictly greater, so equal values keep their order.
\<close>

fun insert_index :: "'a::linorder list \<Rightarrow> nat \<Rightarrow> nat list \<Rightarrow> nat list" where
  "insert_index v i [] = [i]"
| "insert_index v i (j # js) =
     (if v ! i < v ! j then i # j # js else j # insert_index v i js)"

definition argsort_insertion :: "'a::linorder list \<Rightarrow> nat list" where
  "argsort_insertion v = foldl (\<lambda>acc i. insert_index v i acc) [] [0..<length v]"

text \<open>
  Python's \<^verbatim>\<open>xs[:n]\<close> for an integer \<open>n\<close>: the first \<open>n\<close> elements, and for a
  negative \<open>n\<close> all but the last \<open>-n\<close>.
\<close>

definition slice_to :: "int \<Rightarrow> 'a list \<Rightarrow> 'a list" where
  "slice_to n xs = (if 0 \<le> n then take (nat n) xs else take (length xs - nat (- n)) xs)"

text \<open>
  \<^verbatim>\<open>data.iloc[indices]\<close> with a list of positions: the rows at these positions, in
  this order; a position past the last row raises IndexError.
\<close>

definition iloc :: "'r list \<Rightarrow> nat list \<Rightarrow> py_error + 'r list" where
  "iloc data indices =
     (if list_all (\<lambda>i. i < length data) indices then Inr (map ((!) data) indices)
      else Inl IndexError)"

subsection \<open>Text Similarity Engine: get_recommendations\<close>

text \<open>
  \<^verbatim>\<open>
  def get_recommendations(user_input, data, vectorizer, tfidf_matrix):
      user_vector = vectorizer.transform([user_input])
      similarities = cosine_similarity(user_vector, tfidf_matrix).flatten()
      indices = similarities.argsort()[-50:][::-1]
      recommended_items = data.iloc[indices]
      return recommended_items
  \<close>
  \<open>vectorizer\<close> is the fitted vectorizer's transform of one text, \<open>tfidf_matrix\<close> the
  list of the indexed rows, and \<open>cosine_similarity u r\<close> the library's score of the
  query vector against one row.
\<close>

definition similarities_of :: "('v \<Rightarrow> 'v \<Rightarrow> 's) \<Rightarrow> 'v \<Rightarrow> 'v list \<Rightarrow> 's list" where
  "similarities_of cosine_similarity user_vector tfidf_matrix =
     map (cosine_similarity user_vector) tfidf_matrix"

definition top50_indices :: "('s list \<Rightarrow> nat list) \<Rightarrow> 's list \<Rightarrow> nat list" where
  "top50_indices argsort similarities =
     rev (drop (length (argsort similarities) - 50) (argsort similarities))"

definition get_recommendations ::
  "('s list \<Rightarrow> nat list) \<Rightarrow> ('v \<Rightarrow> 'v \<Rightarrow> 's) \<Rightarrow>
   string \<Rightarrow> 'r list \<Rightarrow> (string \<Rightarrow> 'v) \<Rightarrow> 'v list \<Rightarrow> py_error + 'r list" where
  "get_recommendations argsort cosine_similarity user_input data vectorizer tfidf_matrix =
     (let user_vector = vectorizer user_input;
          similarities = similarities_of cosine_similarity user_vector tfidf_matrix;
          indices = top50_indices argsort similarities
      in iloc data indices)"

subsection \<open>Visual Similarity Engine: recommend_similar_images\<close>

text \<open>
  \<^verbatim>\<open>
  def recommend_similar_images(input_embedding, embeddings, image_paths, top_n=16):
      scores = cosine_similarity([input_embedding], embeddings)[0]
      recommended_indices = np.argsort(scores)[::-1][:top_n]
      recommendations = [(image_paths[i], scores[i]) for i in recommended_indices]
      return recommendations
  \<close>
  An embedding is the list of its components and the table the list of its rows.
  scikit-learn validates both arguments of \<^verbatim>\<open>cosine_similarity\<close> before it computes
  anything, and raises ValueError on a table with no rows, on an embedding with no
  components, on a row whose dimension is not the query's, and on a component that is
  NaN or infinite. \<open>check_pairwise_arrays\<close> is that validation (\<open>isfinite\<close> tells the finite
  components), \<open>cosine x row\<close> is the score the library computes for the query against one
  row, and \<open>cosine_similarity_rows\<close> is the call of line 83: the ValueError, or one score
  per row. The ValueError is not caught by \<^verbatim>\<open>recommend_similar_images\<close>.
  \<open>image_paths[i]\<close> raises IndexError when the path array is shorter than the table.
\<close>

definition check_pairwise_arrays :: "('x \<Rightarrow> bool) \<Rightarrow> 'x list \<Rightarrow> 'x list list \<Rightarrow> bool" where
  "check_pairwise_arrays isfinite x Y =
     (Y \<noteq> [] \<and> x \<noteq> [] \<and> list_all (\<lambda>row. length row = length x) Y \<and>
      list_all isfinite x \<and> list_all (list_all isfinite) Y)"

definition cosine_similarity_rows ::
  "('x list \<Rightarrow> 'x list \<Rightarrow> 's) \<Rightarrow> ('x \<Rightarrow> bool) \<Rightarrow> 'x list \<Rightarrow> 'x list list \<Rightarrow> py_error + 's list" where
  "cosine_similarity_rows cosine isfinite x Y =
     (if check_pairwise_arrays isfinite x Y then Inr (map (cosine x) Y) else Inl ValueError)"

definition top_n_indices :: "('s list \<Rightarrow> nat list) \<Rightarrow> 's list \<Rightarrow> int \<Rightarrow> nat list" where
  "top_n_indices argsort scores top_n = slice_to top_n (rev (argsort scores))"

definition recommend_similar_images ::
  "('s list \<Rightarrow> nat list) \<Rightarrow> ('x list \<Rightarrow> 'x list \<Rightarrow> 's) \<Rightarrow> ('x \<Rightarrow> bool) \<Rightarrow>
   'x list \<Rightarrow> 'x list list \<Rightarrow> 'p list \<Rightarrow> int \<Rightarrow> py_error + ('p \<times> 's) list" where
  "recommend_similar_images argsort cosine isfinite input_embedding embeddings image_paths top_n =
     (case cosine_similarity_rows cosine isfinite input_embedding embeddings of
        Inl e \<Rightarrow> Inl e
      | Inr scores \<Rightarrow>
          (let recommended_indices = top_n_indices argsort scores top_n
           in if list_all (\<lambda>i. i < length image_paths) recommended_indices
              then Inr (map (\<lambda>i. (image_paths ! i, scores ! i)) recommended_indices)
              else Inl IndexError))"

subsection \<open>Strings\<close>

text \<open>
  Strings are lists of ASCII characters. \<open>lower\<close> is \<^verbatim>\<open>str.lower\<close>, \<open>strip\<close> is
  \<^verbatim>\<open>str.strip()\<close> with the ASCII white space (codes 9 to 13, 28 to 31 and 32),
  \<open>substring_of k s\<close> is Python's \<^verbatim>\<open>k in s\<close>, and \<open>replace\<close> is
  \<^verbatim>\<open>s.replace(old, new)\<close>: occurrences are replaced from the left and do not overlap.
\<close>

definition upper_lower :: "(char \<times> char) list" where
  "upper_lower = zip ''ABCDEFGHIJKLMNOPQRSTUVWXYZ'' ''abcdefghijklmnopqrstuvwxyz''"

definition isupper :: "char \<Rightarrow> bool" where
  "isupper c = (c \<in> set ''ABCDEFGHIJKLMNOPQRSTUVWXYZ'')"

definition lower_char :: "char \<Rightarrow> char" where
  "lower_char c = (case map_of upper_lower c of Some d \<Rightarrow> d | None \<Rightarrow> c)"

definition lower :: "string \<Rightarrow> string" where
  "lower s = map lower_char s"

definition isspace :: "char \<Rightarrow> bool" where
  "isspace c = (c \<in> set [CHR 0x09, CHR 0x0A, CHR 0x0B, CHR 0x0C, CHR 0x0D,
                          CHR 0x1C, CHR 0x1D, CHR 0x1E, CHR 0x1F, CHR 0x20])"

definition strip :: "string \<Rightarrow> string" where
  "strip s = rev (dropWhile isspace (rev (dropWhile isspace s)))"

fun substring_of :: "string \<Rightarrow> string \<Rightarrow> bool" where
  "substring_of k [] = (k = [])"
| "substring_of k (c # cs) = (take (length k) (c # cs) = k \<or> substring_of k cs)"

fun replace_from :: "string \<Rightarrow> string \<Rightarrow> string \<Rightarrow> string" where
  "replace_from old new [] = []"
| "replace_from old new (c # cs) =
     (if old \<noteq> [] \<and> take (length old) (c # cs) = old
      then new @ replace_from old new (drop (length old) (c # cs))
      else c # replace_from old new cs)"

definition replace :: "string \<Rightarrow> string \<Rightarrow> string \<Rightarrow> string" where
  "replace old new s =
     (if old = [] then new @ concat (map (\<lambda>c. c # new) s) else replace_from old new s)"

subsection \<open>Compatibility Judge: get_combination_feedback\<close>

text \<open>
  A value that \<^verbatim>\<open>json.loads\<close> returns. A number keeps its literal text; an object is
  the list of its members, each key once. \<open>dict_get\<close> is \<^verbatim>\<open>dict.get(key, default)\<close>.
\<close>

datatype json = JNull | JBool bool | JNum string | JStr string
  | JArr "json list" | JObj "(string \<times> json) list"

definition dict_get :: "(string \<times> json) list \<Rightarrow> string \<Rightarrow> json \<Rightarrow> json" where
  "dict_get kvs k d = (case map_of kvs k of Some v \<Rightarrow> v | None \<Rightarrow> d)"

text \<open>
  \<^verbatim>\<open>
      responses = model.generate_content(contents, stream=True)
      all_responses = [response.text for response in responses]
      try:
          concatenated_response = ''.join(all_responses)
          cleaned_response = concatenated_response.replace('```json', '').replace('```', '').strip()
          response_json = json.loads(cleaned_response)
          decision = response_json.get("decision", "Unknown")
          reason = response_json.get("reason", "No reason provided")
          return decision, reason
      except Exception as e:
          st.error(f"Error parsing response: {e}")
          return "Unknown", "Response parsing error"
  \<close>
  The model starts from \<open>all_responses\<close>, the texts of the streamed fragments.
  \<open>fence\<close> is the three backquotes of a markdown code fence (character code 0x60).
  \<open>json_loads\<close> is \<^verbatim>\<open>json.loads\<close>, with \<open>None\<close> where it raises. \<open>parse_response\<close>
  is the body of the \<^verbatim>\<open>try\<close>: \<^verbatim>\<open>.get\<close> exists on an object only, so any other
  parsed value raises AttributeError. The handler catches every exception of the body.
\<close>

definition fence :: string where
  "fence = [CHR 0x60, CHR 0x60, CHR 0x60]"

definition cleaned_response :: "string list \<Rightarrow> string" where
  "cleaned_response all_responses =
     strip (replace fence [] (replace (fence @ ''json'') [] (concat all_responses)))"

definition parse_response :: "(string \<Rightarrow> json option) \<Rightarrow> string list \<Rightarrow> py_error + json \<times> json" where
  "parse_response json_loads all_responses =
     (case json_loads (cleaned_response all_responses) of
        None \<Rightarrow> Inl JSONDecodeError
      | Some response_json \<Rightarrow>
          (case response_json of
             JObj kvs \<Rightarrow>
               Inr (dict_get kvs ''decision'' (JStr ''Unknown''),
                    dict_get kvs ''reason'' (JStr ''No reason provided''))
           | _ \<Rightarrow> Inl AttributeError))"

definition get_combination_feedback :: "(string \<Rightarrow> json option) \<Rightarrow> string list \<Rightarrow> json \<times> json" where
  "get_combination_feedback json_loads all_responses =
     (case parse_response json_loads all_responses of
        Inr verdict \<Rightarrow> verdict
      | Inl e \<Rightarrow> (JStr ''Unknown'', JStr ''Response parsing error''))"

subsection \<open>Complementary Product Filter: recommend_complementary_products\<close>

text \<open>
  A catalog row with the columns the filter reads; \<open>id_col\<close> is the column \<^verbatim>\<open>id\<close>.
  The data frame is the list of its rows in catalog order.
\<close>

record product =
  id_col :: int
  productDisplayName :: string
  baseColour :: string
  usage :: string
  subCategory :: string
  gender :: string
  filename :: string

text \<open>
  \<^verbatim>\<open>
  def load_image_from_dataset(product_id, dataframe):
      file_path = dataframe[dataframe['id'] == product_id]['filename'].iloc[0]
      try:
          return Image.open(file_path)
      except IOError:
          print(f"Cannot load image for product ID {product_id}")
          return None
  \<close>
  \<open>image_open\<close> is \<^verbatim>\<open>Image.open\<close>, with \<open>None\<close> where it raises IOError.
  \<^verbatim>\<open>.iloc[0]\<close> of an empty selection raises IndexError.
\<close>

definition load_image_from_dataset ::
  "(string \<Rightarrow> 'img option) \<Rightarrow> int \<Rightarrow> product list \<Rightarrow> py_error + 'img option" where
  "load_image_from_dataset image_open pid dataframe =
     (case filter (\<lambda>r. id_col r = pid) dataframe of
        [] \<Rightarrow> Inl IndexError
      | r # _ \<Rightarrow> Inr (image_open (filename r)))"

fun load_images ::
  "(string \<Rightarrow> 'img option) \<Rightarrow> int list \<Rightarrow> product list \<Rightarrow> py_error + 'img option list" where
  "load_images image_open [] data = Inr []"
| "load_images image_open (pid # pids) data =
     (case load_image_from_dataset image_open pid data of
        Inl e \<Rightarrow> Inl e
      | Inr img \<Rightarrow>
          (case load_images image_open pids data of
             Inl e \<Rightarrow> Inl e
           | Inr imgs \<Rightarrow> Inr (img # imgs)))"

definition color_keywords :: "string list" where
  "color_keywords = [''blue'', ''white'', ''black'', ''red'']"

definition usage_keywords :: "string list" where
  "usage_keywords = [''casual'', ''formal'', ''party'']"

text \<open>\<^verbatim>\<open>next((k for k in keywords if k in ai_feedback), None)\<close>: the first keyword, in
  the order of the list, that occurs in the feedback.\<close>

definition extracted_color :: "string \<Rightarrow> string option" where
  "extracted_color ai_feedback = find (\<lambda>color. substring_of color ai_feedback) color_keywords"

definition extracted_usage :: "string \<Rightarrow> string option" where
  "extracted_usage ai_feedback = find (\<lambda>usage. substring_of usage ai_feedback) usage_keywords"

text \<open>\<^verbatim>\<open>data[data['id'].isin(user_selected_product_ids)].iloc[0]\<close>: the first catalog
  row, in catalog order, whose id is selected.\<close>

definition selected_details :: "int list \<Rightarrow> product list \<Rightarrow> py_error + product" where
  "selected_details user_selected_product_ids data =
     (case filter (\<lambda>r. id_col r \<in> set user_selected_product_ids) data of
        [] \<Rightarrow> Inl IndexError
      | r # _ \<Rightarrow> Inr r)"

text \<open>The two row predicates: lines 143 to 146 with the extracted values, lines 152 to
  155 with the selected row's raw values. Both compare the gender with the lowercased
  gender of the selected row.\<close>

definition extracted_match :: "string \<Rightarrow> string \<Rightarrow> product \<Rightarrow> product \<Rightarrow> bool" where
  "extracted_match color usage_kw sel r =
     (lower (baseColour r) = color \<and> lower (usage r) = usage_kw \<and>
      lower (gender r) = lower (gender sel) \<and>
      lower (subCategory r) = lower (subCategory sel))"

definition fallback_match :: "product \<Rightarrow> product \<Rightarrow> bool" where
  "fallback_match sel r =
     (baseColour r = baseColour sel \<and> usage r = usage sel \<and>
      gender r = lower (gender sel) \<and> subCategory r = subCategory sel)"

type_synonym shown = "string \<times> string \<times> string \<times> string \<times> string"

definition project :: "product \<Rightarrow> shown" where
  "project r = (productDisplayName r, baseColour r, usage r, subCategory r, gender r)"

text \<open>
  \<^verbatim>\<open>recommend_complementary_products(user_selected_product_ids, decision, reason, data, model)\<close>.
  The decision and the reason are what \<open>get_combination_feedback\<close> returned, so they are
  JSON values: \<^verbatim>\<open>decision == 'yes'\<close> holds for the string \<open>yes\<close> only, and
  \<^verbatim>\<open>reason.lower()\<close> raises AttributeError on a reason that is not a string. The
  argument \<^verbatim>\<open>model\<close> is not used. The result of a decision other than \<open>yes\<close> is the
  empty data frame.
\<close>

definition recommend_complementary_products ::
  "(string \<Rightarrow> 'img option) \<Rightarrow> int list \<Rightarrow> json \<Rightarrow> json \<Rightarrow> product list \<Rightarrow> py_error + shown list" where
  "recommend_complementary_products image_open user_selected_product_ids decision reason data =
     (if decision = JStr ''yes'' then
        (case load_images image_open user_selected_product_ids data of
           Inl e \<Rightarrow> Inl e
         | Inr selected_images \<Rightarrow>
             (case reason of
                JStr reason_text \<Rightarrow>
                  (let ai_feedback = lower reason_text in
                   case selected_details user_selected_product_ids data of
                     Inl e \<Rightarrow> Inl e
                   | Inr sel \<Rightarrow>
                       (case (extracted_color ai_feedback, extracted_usage ai_feedback) of
                          (Some color, Some usage_kw) \<Rightarrow>
                            Inr (map project (filter (extracted_match color usage_kw sel) data))
                        | _ \<Rightarrow>
                            Inr (map project (filter (fallback_match sel) data))))
              | _ \<Rightarrow> Inl AttributeError))
      else Inr [])"

section \<open>Properties of the ranking functions\<close>

lemma set_insert_index: "set (insert_index v i js) = insert i (set js)"
  by (induction js) auto

lemma sorted_insert_index:
  assumes "sorted_wrt (\<lambda>i j. v ! i < v ! j \<or> (v ! i = v ! j \<and> i < j)) js"
    and "\<forall>j\<in>set js. j < i"
  shows "sorted_wrt (\<lambda>i j. v ! i < v ! j \<or> (v ! i = v ! j \<and> i < j)) (insert_index v i js)"
  using assms
proof (induction js)
  case Nil
  then show ?case by simp
next
  case (Cons j js)
  show ?case
  proof (cases "v ! i < v ! j")
    case True
    have "\<forall>x\<in>set js. v ! i < v ! x"
      using Cons.prems(1) True by fastforce
    with True Cons.prems(1) show ?thesis by simp
  next
    case False
    have "j < i" using Cons.prems(2) by simp
    with False have "v ! j < v ! i \<or> (v ! j = v ! i \<and> j < i)" by auto
    moreover have "sorted_wrt (\<lambda>i j. v ! i < v ! j \<or> (v ! i = v ! j \<and> i < j)) (insert_index v i js)"
      using Cons by simp
    ultimately show ?thesis
      using False Cons.prems(1) by (simp add: set_insert_index)
  qed
qed

lemma distinct_insert_index:
  "distinct js \<Longrightarrow> i \<notin> set js \<Longrightarrow> distinct (insert_index v i js)"
  by (induction js) (auto simp: set_insert_index)

lemma insertion_prefix:
  "distinct (foldl (\<lambda>acc i. insert_index v i acc) [] [0..<n]) \<and>
   set (foldl (\<lambda>acc i. insert_index v i acc) [] [0..<n]) = {0..<n} \<and>
   sorted_wrt (\<lambda>i j. v ! i < v ! j \<or> (v ! i = v ! j \<and> i < j))
     (foldl (\<lambda>acc i. insert_index v i acc) [] [0..<n])"
proof (induction n)
  case 0
  then show ?case by simp
next
  case (Suc n)
  let ?acc = "foldl (\<lambda>acc i. insert_index v i acc) [] [0..<n]"
  have step: "foldl (\<lambda>acc i. insert_index v i acc) [] [0..<Suc n] = insert_index v n ?acc"
    by simp
  have d: "distinct (insert_index v n ?acc)"
    using Suc by (simp add: distinct_insert_index)
  have s: "set (insert_index v n ?acc) = {0..<Suc n}"
    using Suc by (auto simp: set_insert_index)
  have o: "sorted_wrt (\<lambda>i j. v ! i < v ! j \<or> (v ! i = v ! j \<and> i < j)) (insert_index v n ?acc)"
    using Suc by (intro sorted_insert_index) auto
  show ?case unfolding step using d s o by blast
qed

lemma argsort_insertion_stable: "argsort_stable argsort_insertion v"
  unfolding argsort_stable_def argsort_insertion_def using insertion_prefix [of v "length v"] by simp

lemma argsort_stable_ok:
  assumes "argsort_stable argsort v"
  shows "argsort_ok argsort v"
proof -
  have "sorted_wrt (\<lambda>i j. v ! i \<le> v ! j) (argsort v)"
    using assms unfolding argsort_stable_def
    by (auto intro: sorted_wrt_mono_rel [rotated])
  then have "sorted (map ((!) v) (argsort v))"
    by (simp add: sorted_wrt_map)
  with assms show ?thesis
    by (simp add: argsort_ok_def argsort_stable_def)
qed

lemma length_argsort_ok:
  assumes "argsort_ok argsort v"
  shows "length (argsort v) = length v"
proof -
  have "card (set (argsort v)) = length (argsort v)"
    using assms by (intro distinct_card) (simp add: argsort_ok_def)
  moreover have "card (set (argsort v)) = length v"
    using assms by (simp add: argsort_ok_def)
  ultimately show ?thesis by simp
qed

lemma top50_length:
  assumes "argsort_ok argsort v"
  shows "length (top50_indices argsort v) = min 50 (length v)"
  using length_argsort_ok [OF assms] by (simp add: top50_indices_def)

lemma top50_bound:
  assumes "argsort_ok argsort v"
  shows "\<forall>i\<in>set (top50_indices argsort v). i < length v"
proof
  fix i assume "i \<in> set (top50_indices argsort v)"
  then have "i \<in> set (argsort v)"
    by (auto simp: top50_indices_def dest: in_set_dropD)
  with assms show "i < length v" by (simp add: argsort_ok_def)
qed

lemma top50_descending:
  assumes "argsort_ok argsort v"
  shows "sorted_wrt (\<ge>) (map ((!) v) (top50_indices argsort v))"
proof -
  have "sorted (map ((!) v) (argsort v))"
    using assms by (simp add: argsort_ok_def)
  then have "sorted (drop (length (argsort v) - 50) (map ((!) v) (argsort v)))"
    by (rule sorted_wrt_drop)
  then have "sorted_wrt (\<ge>) (rev (drop (length (argsort v) - 50) (map ((!) v) (argsort v))))"
    by (simp add: sorted_wrt_rev)
  then show ?thesis
    by (simp add: top50_indices_def rev_map drop_map)
qed

text \<open>
  Claim C4. For every text query against an indexed catalog, the sequence that
  \<open>get_recommendations\<close> returns holds at most 50 candidates, and the cosine-similarity
  scores of the returned candidates are non-increasing along the sequence. The function
  returns the catalog rows at the positions \<open>top50_indices\<close>, whatever argsort numpy runs.
\<close>
theorem get_recommendations_top50:
  assumes "argsort_ok argsort (similarities_of cosine_similarity (vectorizer user_input) tfidf_matrix)"
    and "length tfidf_matrix \<le> length data"
  shows "get_recommendations argsort cosine_similarity user_input data vectorizer tfidf_matrix =
           Inr (map ((!) data)
             (top50_indices argsort (similarities_of cosine_similarity (vectorizer user_input) tfidf_matrix))) \<and>
         length (top50_indices argsort
             (similarities_of cosine_similarity (vectorizer user_input) tfidf_matrix)) \<le> 50 \<and>
         sorted_wrt (\<ge>) (map ((!) (similarities_of cosine_similarity (vectorizer user_input) tfidf_matrix))
             (top50_indices argsort (similarities_of cosine_similarity (vectorizer user_input) tfidf_matrix)))"
proof -
  let ?v = "similarities_of cosine_similarity (vectorizer user_input) tfidf_matrix"
  have len: "length ?v = length tfidf_matrix" by (simp add: similarities_of_def)
  have "\<forall>i\<in>set (top50_indices argsort ?v). i < length data"
    using top50_bound [OF assms(1)] len assms(2) by auto
  then have "get_recommendations argsort cosine_similarity user_input data vectorizer tfidf_matrix =
      Inr (map ((!) data) (top50_indices argsort ?v))"
    by (simp add: get_recommendations_def iloc_def list_all_iff)
  moreover have "length (top50_indices argsort ?v) \<le> 50"
    using top50_length [OF assms(1)] by simp
  ultimately show ?thesis using top50_descending [OF assms(1)] by simp
qed

text \<open>Three indexed products and the query \<open>shirt\<close>: the matching product comes first.\<close>
theorem get_recommendations_top50_witness:
  "get_recommendations argsort_insertion (\<lambda>q r. if q = r then 1 else 0::nat) ''shirt''
       [''P0'', ''P1'', ''P2''] (\<lambda>s. s) [''jeans'', ''shirt'', ''kurta''] = Inr [''P1'', ''P2'', ''P0'']"
proof -
  have ok: "argsort_ok argsort_insertion
      (similarities_of (\<lambda>q r. if q = r then 1 else 0::nat) ((\<lambda>s. s) ''shirt'') [''jeans'', ''shirt'', ''kurta''])"
    by (rule argsort_stable_ok [OF argsort_insertion_stable])
  have le: "length [''jeans'', ''shirt'', ''kurta''] \<le> length [''P0'', ''P1'', ''P2'']" by simp
  from ok le get_recommendations_top50 [of argsort_insertion "\<lambda>q r. if q = r then 1 else 0::nat"
      "\<lambda>s. s" "''shirt''" "[''jeans'', ''shirt'', ''kurta'']" "[''P0'', ''P1'', ''P2'']"]
  show ?thesis
    by (simp add: top50_indices_def similarities_of_def argsort_insertion_def)
qed

lemma top50_stable_order:
  assumes "argsort_stable argsort v"
  shows "sorted_wrt (\<lambda>i j. v ! j < v ! i \<or> (v ! i = v ! j \<and> j < i)) (top50_indices argsort v)"
proof -
  have "sorted_wrt (\<lambda>i j. v ! i < v ! j \<or> (v ! i = v ! j \<and> i < j))
      (drop (length (argsort v) - 50) (argsort v))"
    using assms by (simp add: argsort_stable_def)
  then have "sorted_wrt (\<lambda>j i. v ! i < v ! j \<or> (v ! i = v ! j \<and> i < j))
      (rev (drop (length (argsort v) - 50) (argsort v)))"
    by (simp add: sorted_wrt_rev)
  then show ?thesis
    unfolding top50_indices_def by (rule sorted_wrt_mono_rel [rotated]) auto
qed

lemma get_recommendations_rows:
  assumes "argsort_ok argsort (similarities_of cosine_similarity (vectorizer user_input) tfidf_matrix)"
    and "length tfidf_matrix \<le> length data"
  shows "get_recommendations argsort cosine_similarity user_input data vectorizer tfidf_matrix =
           Inr (map ((!) data)
             (top50_indices argsort (similarities_of cosine_similarity (vectorizer user_input) tfidf_matrix)))"
proof -
  let ?v = "similarities_of cosine_similarity (vectorizer user_input) tfidf_matrix"
  have len: "length ?v = length tfidf_matrix" by (simp add: similarities_of_def)
  have "\<forall>i\<in>set (top50_indices argsort ?v). i < length data"
    using top50_bound [OF assms(1)] len assms(2) by auto
  then show ?thesis
    by (simp add: get_recommendations_def iloc_def list_all_iff)
qed




text \<open>
  Claim C8, amended. The claim says that products with equal scores are returned in
  catalog order. For every text query the function returns the rows at the last 50
  positions of the ascending argsort, reversed, so equal scores come in the reverse of
  the order argsort left them in: when argsort keeps equal scores in catalog order (a
  stable sort, as the insertion sort of a short array is), the returned sequence descends
  by score and lists equal scores with the higher catalog position first.
\<close>
theorem get_recommendations_ties_reversed:
  assumes "argsort_ok argsort (similarities_of cosine_similarity (vectorizer user_input) tfidf_matrix)"
    and "length tfidf_matrix \<le> length data"
  shows "get_recommendations argsort cosine_similarity user_input data vectorizer tfidf_matrix =
           Inr (map ((!) data)
             (top50_indices argsort (similarities_of cosine_similarity (vectorizer user_input) tfidf_matrix))) \<and>
         rev (top50_indices argsort (similarities_of cosine_similarity (vectorizer user_input) tfidf_matrix))
           = drop (length tfidf_matrix - 50)
               (argsort (similarities_of cosine_similarity (vectorizer user_input) tfidf_matrix)) \<and>
         (argsort_stable argsort (similarities_of cosine_similarity (vectorizer user_input) tfidf_matrix) \<longrightarrow>
          sorted_wrt
            (\<lambda>i j. similarities_of cosine_similarity (vectorizer user_input) tfidf_matrix ! j
                     < similarities_of cosine_similarity (vectorizer user_input) tfidf_matrix ! i \<or>
                   (similarities_of cosine_similarity (vectorizer user_input) tfidf_matrix ! i
                     = similarities_of cosine_similarity (vectorizer user_input) tfidf_matrix ! j \<and> j < i))
            (top50_indices argsort (similarities_of cosine_similarity (vectorizer user_input) tfidf_matrix)))"
proof -
  let ?v = "similarities_of cosine_similarity (vectorizer user_input) tfidf_matrix"
  have len: "length (argsort ?v) = length tfidf_matrix"
    using length_argsort_ok [OF assms(1)] by (simp add: similarities_of_def)
  have r: "rev (top50_indices argsort ?v) = drop (length tfidf_matrix - 50) (argsort ?v)"
    by (simp add: top50_indices_def len)
  show ?thesis
    using get_recommendations_rows [where vectorizer = vectorizer and user_input = user_input,
        OF assms] r top50_stable_order [of argsort ?v]
    by simp
qed

text \<open>Three indexed products, the first and the last with equal scores.\<close>
theorem get_recommendations_ties_reversed_witness:
  "get_recommendations argsort_insertion (\<lambda>q r. q * r) ''shirt'' [''P0'', ''P1'', ''P2'']
       (\<lambda>s. if s = ''shirt'' then 1 else 0::nat) [1, 0, 1] = Inr [''P2'', ''P0'', ''P1''] \<and>
   top50_indices argsort_insertion [1, 0, 1::nat] = [2, 0, 1] \<and>
   sorted_wrt (\<lambda>i j. [1, 0, 1::nat] ! j < [1, 0, 1] ! i \<or> ([1, 0, 1::nat] ! i = [1, 0, 1] ! j \<and> j < i))
     (top50_indices argsort_insertion [1, 0, 1::nat])"
proof -
  have st: "argsort_stable argsort_insertion
      (similarities_of (\<lambda>q r. q * r) ((\<lambda>s. if s = ''shirt'' then 1 else 0::nat) ''shirt'') [1, 0, 1])"
    by (rule argsort_insertion_stable)
  have ok: "argsort_ok argsort_insertion
      (similarities_of (\<lambda>q r. q * r) ((\<lambda>s. if s = ''shirt'' then 1 else 0::nat) ''shirt'') [1, 0, 1])"
    by (rule argsort_stable_ok [OF st])
  have le: "length [1::nat, 0, 1] \<le> length [''P0'', ''P1'', ''P2'']" by simp
  have idx: "top50_indices argsort_insertion [1, 0, 1::nat] = [2, 0, 1]"
    by (simp add: top50_indices_def argsort_insertion_def)
  have sims: "similarities_of (\<lambda>q r. q * r) ((\<lambda>s. if s = ''shirt'' then 1 else 0::nat) ''shirt'') [1, 0, 1]
      = [1, 0, 1]"
    by (simp add: similarities_of_def)
  from get_recommendations_ties_reversed [of argsort_insertion "\<lambda>q r. q * r"
      "\<lambda>s. if s = ''shirt'' then 1 else 0::nat" "''shirt''" "[1, 0, 1]" "[''P0'', ''P1'', ''P2'']", OF ok le] st
  show ?thesis
    unfolding sims idx by simp
qed

text \<open>
  Counterexample to C8 as stated: two indexed products with equal scores for the query
  \<open>shirt\<close>. The product at catalog position 1 is returned before the one at position 0.
\<close>
theorem get_recommendations_ties_counterexample:
  "similarities_of (\<lambda>q r. q * r) ((\<lambda>s. if s = ''shirt'' then 1 else 0::nat) ''shirt'') [1, 1] = [1, 1] \<and>
   get_recommendations argsort_insertion (\<lambda>q r. q * r) ''shirt'' [''P0'', ''P1'']
       (\<lambda>s. if s = ''shirt'' then 1 else 0::nat) [1, 1] = Inr [''P1'', ''P0'']"
  by (simp add: get_recommendations_def similarities_of_def top50_indices_def iloc_def
      argsort_insertion_def)

lemma slice_to_nonneg: "0 \<le> n \<Longrightarrow> slice_to n xs = take (nat n) xs"
  by (simp add: slice_to_def)

lemma recommend_similar_images_invalid:
  assumes "\<not> check_pairwise_arrays isfinite input_embedding embeddings"
  shows "recommend_similar_images argsort cosine isfinite input_embedding embeddings image_paths top_n =
           Inl ValueError"
  using assms by (simp add: recommend_similar_images_def cosine_similarity_rows_def)

lemma recommend_similar_images_valid:
  assumes "check_pairwise_arrays isfinite input_embedding embeddings"
    and "argsort_ok argsort (map (cosine input_embedding) embeddings)"
    and "0 \<le> top_n"
    and "length embeddings \<le> length image_paths"
  shows "recommend_similar_images argsort cosine isfinite input_embedding embeddings image_paths top_n =
           Inr (map (\<lambda>i. (image_paths ! i, map (cosine input_embedding) embeddings ! i))
             (top_n_indices argsort (map (cosine input_embedding) embeddings) top_n)) \<and>
         length (top_n_indices argsort (map (cosine input_embedding) embeddings) top_n)
           = min (nat top_n) (length embeddings) \<and>
         distinct (top_n_indices argsort (map (cosine input_embedding) embeddings) top_n) \<and>
         sorted_wrt (\<ge>)
           (map ((!) (map (cosine input_embedding) embeddings))
             (top_n_indices argsort (map (cosine input_embedding) embeddings) top_n)) \<and>
         top_n_indices argsort (map (cosine input_embedding) embeddings) top_n
           = take (nat top_n) (rev (argsort (map (cosine input_embedding) embeddings))) \<and>
         (argsort_stable argsort (map (cosine input_embedding) embeddings) \<longrightarrow>
          sorted_wrt
            (\<lambda>i j. map (cosine input_embedding) embeddings ! j
                     < map (cosine input_embedding) embeddings ! i \<or>
                   (map (cosine input_embedding) embeddings ! i
                     = map (cosine input_embedding) embeddings ! j \<and> j < i))
            (top_n_indices argsort (map (cosine input_embedding) embeddings) top_n))"
proof -
  let ?v = "map (cosine input_embedding) embeddings"
  let ?idx = "top_n_indices argsort ?v top_n"
  have idx: "?idx = take (nat top_n) (rev (argsort ?v))"
    using assms(3) by (simp add: top_n_indices_def slice_to_nonneg)
  have len: "length ?v = length embeddings" by simp
  have n: "length ?idx = min (nat top_n) (length embeddings)"
    using length_argsort_ok [OF assms(2)] by (simp add: idx)
  have d: "distinct ?idx"
    using assms(2) by (simp add: idx argsort_ok_def)
  have "set ?idx \<subseteq> set (argsort ?v)"
    unfolding idx using set_take_subset [of "nat top_n" "rev (argsort ?v)"] by simp
  then have "\<forall>i\<in>set ?idx. i < length image_paths"
    using assms(2,4) len by (auto simp: argsort_ok_def)
  then have r: "recommend_similar_images argsort cosine isfinite input_embedding embeddings image_paths top_n =
      Inr (map (\<lambda>i. (image_paths ! i, ?v ! i)) ?idx)"
    using assms(1)
    by (simp add: recommend_similar_images_def cosine_similarity_rows_def list_all_iff Let_def)
  have "sorted_wrt (\<ge>) (rev (map ((!) ?v) (argsort ?v)))"
    using assms(2) by (simp add: argsort_ok_def sorted_wrt_rev)
  then have "sorted_wrt (\<ge>) (take (nat top_n) (rev (map ((!) ?v) (argsort ?v))))"
    by (rule sorted_wrt_take)
  then have o: "sorted_wrt (\<ge>) (map ((!) ?v) ?idx)"
    by (simp only: idx rev_map take_map)
  have s: "sorted_wrt (\<lambda>i j. ?v ! j < ?v ! i \<or> (?v ! i = ?v ! j \<and> j < i)) ?idx"
    if st: "argsort_stable argsort ?v"
  proof -
    have "sorted_wrt (\<lambda>j i. ?v ! i < ?v ! j \<or> (?v ! i = ?v ! j \<and> i < j)) (rev (argsort ?v))"
      using st by (simp add: argsort_stable_def sorted_wrt_rev)
    then have "sorted_wrt (\<lambda>j i. ?v ! i < ?v ! j \<or> (?v ! i = ?v ! j \<and> i < j)) ?idx"
      unfolding idx by (rule sorted_wrt_take)
    then show ?thesis
      by (rule sorted_wrt_mono_rel [rotated]) auto
  qed
  show ?thesis using r n d o idx s by blast
qed

text \<open>
  Claim C5, amended. The claim covers every embedding table and says that ties are broken
  by table order. On a table with no rows, on a row whose dimension is not the query's
  and on a component that is not finite, \<^verbatim>\<open>cosine_similarity\<close> raises ValueError and
  \<open>recommend_similar_images\<close> passes it on to its caller. On every table the validation
  accepts (so with at least one row), with a path for each row and a \<open>top_n\<close> that is not
  negative, it returns exactly \<open>min top_n n\<close> pairs of an image reference and its score,
  for distinct rows of the table (exactly \<open>top_n\<close> pairs of a table with at least \<open>top_n\<close>
  rows, one pair per row of a shorter table), ordered by descending score: the first
  \<open>top_n\<close> positions of the reversed argsort. When argsort keeps equal scores in table
  order, equal scores are listed with the higher table position first, the reverse of
  table order.
\<close>
theorem recommend_similar_images_top_n:
  "(\<not> check_pairwise_arrays isfinite input_embedding embeddings \<longrightarrow>
      recommend_similar_images argsort cosine isfinite input_embedding embeddings image_paths top_n =
        Inl ValueError) \<and>
   (check_pairwise_arrays isfinite input_embedding embeddings \<and>
    argsort_ok argsort (map (cosine input_embedding) embeddings) \<and>
    0 \<le> top_n \<and> length embeddings \<le> length image_paths \<longrightarrow>
      embeddings \<noteq> [] \<and>
      recommend_similar_images argsort cosine isfinite input_embedding embeddings image_paths top_n =
        Inr (map (\<lambda>i. (image_paths ! i, map (cosine input_embedding) embeddings ! i))
          (top_n_indices argsort (map (cosine input_embedding) embeddings) top_n)) \<and>
      length (top_n_indices argsort (map (cosine input_embedding) embeddings) top_n)
        = min (nat top_n) (length embeddings) \<and>
      distinct (top_n_indices argsort (map (cosine input_embedding) embeddings) top_n) \<and>
      sorted_wrt (\<ge>)
        (map ((!) (map (cosine input_embedding) embeddings))
          (top_n_indices argsort (map (cosine input_embedding) embeddings) top_n)) \<and>
      top_n_indices argsort (map (cosine input_embedding) embeddings) top_n
        = take (nat top_n) (rev (argsort (map (cosine input_embedding) embeddings))) \<and>
      (argsort_stable argsort (map (cosine input_embedding) embeddings) \<longrightarrow>
       sorted_wrt
         (\<lambda>i j. map (cosine input_embedding) embeddings ! j
                  < map (cosine input_embedding) embeddings ! i \<or>
                (map (cosine input_embedding) embeddings ! i
                  = map (cosine input_embedding) embeddings ! j \<and> j < i))
         (top_n_indices argsort (map (cosine input_embedding) embeddings) top_n)))"
  (is "(?invalid \<longrightarrow> ?raises) \<and> (?valid \<longrightarrow> ?returns)")
proof (rule conjI)
  show "?invalid \<longrightarrow> ?raises"
    by (simp add: recommend_similar_images_invalid)
next
  show "?valid \<longrightarrow> ?returns"
  proof (rule impI)
    assume a: ?valid
    then have ne: "embeddings \<noteq> []" by (simp add: check_pairwise_arrays_def)
    from a have v: "check_pairwise_arrays isfinite input_embedding embeddings"
      and ok: "argsort_ok argsort (map (cosine input_embedding) embeddings)"
      and nn: "0 \<le> top_n" and le: "length embeddings \<le> length image_paths"
      by simp_all
    show ?returns
      using ne recommend_similar_images_valid [where cosine = cosine and input_embedding = input_embedding,
          OF v ok nn le]
      by blast
  qed
qed

text \<open>
  A table of four rows, two of them with equal scores, and \<open>top_n = 3\<close>; the table with
  no rows; a query of dimension 2 against rows of dimension 3.
\<close>
theorem recommend_similar_images_top_n_witness:
  "recommend_similar_images argsort_insertion (\<lambda>x y. sum_list (map2 (*) x y)) (\<lambda>c. True)
       [3, 1, 0::nat] [[1, 3, 0], [3, 1, 0], [3, 1, 0], [0, 1, 3]]
       [''a.jpg'', ''b.jpg'', ''c.jpg'', ''d.jpg''] 3
     = Inr [(''c.jpg'', 10), (''b.jpg'', 10), (''a.jpg'', 6)] \<and>
   recommend_similar_images argsort_insertion (\<lambda>x y. sum_list (map2 (*) x y)) (\<lambda>c. True)
       [3, 1, 0::nat] [] [''a.jpg''] 3 = Inl ValueError \<and>
   recommend_similar_images argsort_insertion (\<lambda>x y. sum_list (map2 (*) x y)) (\<lambda>c. True)
       [3, 1::nat] [[1, 3, 0], [3, 1, 0]] [''a.jpg'', ''b.jpg''] 3 = Inl ValueError"
proof -
  let ?cos = "\<lambda>x y :: nat list. sum_list (map2 (*) x y)"
  let ?E = "[[1, 3, 0], [3, 1, 0], [3, 1, 0], [0, 1, 3::nat]]"
  have sims: "map (?cos [3, 1, 0]) ?E = [6, 10, 10, 1]" by simp
  have st: "argsort_stable argsort_insertion (map (?cos [3, 1, 0]) ?E)"
    by (rule argsort_insertion_stable)
  have ok: "argsort_ok argsort_insertion (map (?cos [3, 1, 0]) ?E)"
    by (rule argsort_stable_ok [OF st])
  have v: "check_pairwise_arrays (\<lambda>c. True) [3, 1, 0::nat] ?E"
    by (simp add: check_pairwise_arrays_def)
  have idx: "top_n_indices argsort_insertion [6, 10, 10, 1::nat] 3 = [2, 1, 0]"
    by (simp add: top_n_indices_def slice_to_def argsort_insertion_def)
  have inv1: "\<not> check_pairwise_arrays (\<lambda>c. True) [3, 1, 0::nat] []"
    by (simp add: check_pairwise_arrays_def)
  have inv2: "\<not> check_pairwise_arrays (\<lambda>c. True) [3, 1::nat] [[1, 3, 0], [3, 1, 0]]"
    by (simp add: check_pairwise_arrays_def)
  have "recommend_similar_images argsort_insertion ?cos (\<lambda>c. True)
       [3, 1, 0] ?E [''a.jpg'', ''b.jpg'', ''c.jpg'', ''d.jpg''] 3
     = Inr (map (\<lambda>i. ([''a.jpg'', ''b.jpg'', ''c.jpg'', ''d.jpg''] ! i, map (?cos [3, 1, 0]) ?E ! i))
          (top_n_indices argsort_insertion (map (?cos [3, 1, 0]) ?E) 3))"
    using recommend_similar_images_top_n [of "\<lambda>c. True" "[3, 1, 0]" ?E argsort_insertion ?cos
        "[''a.jpg'', ''b.jpg'', ''c.jpg'', ''d.jpg'']" 3] v ok
    by simp
  then have a: "recommend_similar_images argsort_insertion ?cos (\<lambda>c. True)
       [3, 1, 0] ?E [''a.jpg'', ''b.jpg'', ''c.jpg'', ''d.jpg''] 3
     = Inr [(''c.jpg'', 10), (''b.jpg'', 10), (''a.jpg'', 6)]"
    unfolding sims idx by simp
  have b: "recommend_similar_images argsort_insertion ?cos (\<lambda>c. True)
       [3, 1, 0] [] [''a.jpg''] 3 = Inl ValueError"
    using recommend_similar_images_top_n [of "\<lambda>c. True" "[3, 1, 0]" "[]" argsort_insertion ?cos
        "[''a.jpg'']" 3] inv1 by blast
  have c: "recommend_similar_images argsort_insertion ?cos (\<lambda>c. True)
       [3, 1] [[1, 3, 0], [3, 1, 0]] [''a.jpg'', ''b.jpg''] 3 = Inl ValueError"
    using recommend_similar_images_top_n [of "\<lambda>c. True" "[3, 1]" "[[1, 3, 0], [3, 1, 0]]"
        argsort_insertion ?cos "[''a.jpg'', ''b.jpg'']" 3] inv2 by blast
  show ?thesis using a b c by simp
qed

text \<open>
  Counterexample to C5 as stated: a table of two equal rows, so two equal scores, and
  \<open>top_n = 1\<close>. The pair returned is the second row's, not the first row's.
\<close>
theorem recommend_similar_images_ties_counterexample:
  "cosine_similarity_rows (\<lambda>x y. sum_list (map2 (*) x y)) (\<lambda>c. True) [1, 0::nat] [[1, 0], [1, 0]]
     = Inr [1, 1] \<and>
   recommend_similar_images argsort_insertion (\<lambda>x y. sum_list (map2 (*) x y)) (\<lambda>c. True)
       [1, 0::nat] [[1, 0], [1, 0]] [''a.jpg'', ''b.jpg''] 1 = Inr [(''b.jpg'', 1)]"
  by (simp add: recommend_similar_images_def cosine_similarity_rows_def check_pairwise_arrays_def
      top_n_indices_def slice_to_def argsort_insertion_def)

section \<open>Properties of the judge and of the filter\<close>

lemma load_image_present:
  assumes "pid \<in> id_col ` set data"
  shows "\<exists>img. load_image_from_dataset image_open pid data = Inr img"
proof -
  have "filter (\<lambda>r. id_col r = pid) data \<noteq> []"
    using assms by (auto simp: filter_empty_conv)
  then show ?thesis
    by (cases "filter (\<lambda>r. id_col r = pid) data") (simp_all add: load_image_from_dataset_def)
qed

lemma load_images_present:
  assumes "\<forall>pid\<in>set ids. pid \<in> id_col ` set data"
  shows "\<exists>imgs. load_images image_open ids data = Inr imgs"
  using assms
proof (induction ids)
  case Nil
  then show ?case by simp
next
  case (Cons pid pids)
  obtain img where "load_image_from_dataset image_open pid data = Inr img"
    using load_image_present [of pid data image_open] Cons.prems by auto
  moreover obtain imgs where "load_images image_open pids data = Inr imgs"
    using Cons by auto
  ultimately show ?case by simp
qed

lemma selected_details_member:
  assumes "selected_details ids data = Inr sel"
  shows "sel \<in> set data \<and> id_col sel \<in> set ids"
proof -
  obtain rest where "filter (\<lambda>r. id_col r \<in> set ids) data = sel # rest"
    using assms by (auto simp: selected_details_def split: list.splits)
  then have "sel \<in> set (filter (\<lambda>r. id_col r \<in> set ids) data)" by simp
  then show ?thesis by simp
qed

lemma recommend_yes:
  assumes "\<forall>pid\<in>set ids. pid \<in> id_col ` set data"
    and "selected_details ids data = Inr sel"
  shows "recommend_complementary_products image_open ids (JStr ''yes'') (JStr r) data =
           (case (extracted_color (lower r), extracted_usage (lower r)) of
              (Some color, Some usage_kw) \<Rightarrow>
                Inr (map project (filter (extracted_match color usage_kw sel) data))
            | _ \<Rightarrow> Inr (map project (filter (fallback_match sel) data)))"
proof -
  obtain imgs where "load_images image_open ids data = Inr imgs"
    using load_images_present [OF assms(1)] by blast
  then show ?thesis
    using assms(2) by (simp add: recommend_complementary_products_def Let_def)
qed

lemma lower_char_upper: "isupper c \<Longrightarrow> lower_char c \<noteq> c"
  by (auto simp: isupper_def lower_char_def upper_lower_def)

lemma lower_changes:
  assumes "\<exists>c\<in>set g. isupper c"
  shows "lower g \<noteq> g"
proof
  assume "lower g = g"
  then have "\<forall>c\<in>set g. lower_char c = c"
    unfolding lower_def by (induction g) auto
  with assms show False using lower_char_upper by blast
qed

text \<open>
  Claim C1, amended. The claim says that every response that is not an object with the
  string fields \<open>decision\<close> and \<open>reason\<close> yields the decision \<open>unknown\<close> and a generic
  parsing-error reason. From the concatenation of the fragments on, no exception leaves
  \<open>get_combination_feedback\<close>, and: when the cleaned text does not parse, or parses to a
  value that is not an object, the verdict is the decision \<open>Unknown\<close> with the reason
  \<open>Response parsing error\<close>; when it parses to an object, each field present is returned as
  it is, whatever its type, a missing \<open>decision\<close> becomes \<open>Unknown\<close> and a missing \<open>reason\<close>
  becomes \<open>No reason provided\<close>.
\<close>
theorem get_combination_feedback_cases:
  "(json_loads (cleaned_response all_responses) = None \<or>
      (\<exists>j. json_loads (cleaned_response all_responses) = Some j \<and> (\<forall>kvs. j \<noteq> JObj kvs))
    \<longrightarrow> get_combination_feedback json_loads all_responses =
          (JStr ''Unknown'', JStr ''Response parsing error'')) \<and>
   (\<forall>kvs. json_loads (cleaned_response all_responses) = Some (JObj kvs)
    \<longrightarrow> get_combination_feedback json_loads all_responses =
          (dict_get kvs ''decision'' (JStr ''Unknown''),
           dict_get kvs ''reason'' (JStr ''No reason provided'')))"
  by (auto simp: get_combination_feedback_def parse_response_def split: option.splits json.splits)

text \<open>A response that is no JSON text, and an object without the field \<open>decision\<close>.\<close>
theorem get_combination_feedback_cases_witness:
  "get_combination_feedback (\<lambda>s. None) [''I think they match.''] =
     (JStr ''Unknown'', JStr ''Response parsing error'') \<and>
   get_combination_feedback (\<lambda>s. Some (JObj [(''reason'', JStr ''Both are denim'')])) [''{}''] =
     (JStr ''Unknown'', JStr ''Both are denim'')"
  using get_combination_feedback_cases [of "\<lambda>s. None" "[''I think they match.'']"]
    get_combination_feedback_cases [of "\<lambda>s. Some (JObj [(''reason'', JStr ''Both are denim'')])" "[''{}'']"]
  by (simp add: dict_get_def)

text \<open>
  Counterexample to C1 as stated: a fenced response whose object has a decision and no
  reason. A field is missing, and the verdict keeps the decision \<open>yes\<close>, with the default
  reason.
\<close>
theorem get_combination_feedback_missing_field_counterexample:
  "cleaned_response [fence @ ''json'', [CHR 0x0A], ''{\"decision\": \"yes\"}'', [CHR 0x0A], fence]
     = ''{\"decision\": \"yes\"}'' \<and>
   get_combination_feedback
     (\<lambda>s. if s = ''{\"decision\": \"yes\"}'' then Some (JObj [(''decision'', JStr ''yes'')]) else None)
     [fence @ ''json'', [CHR 0x0A], ''{\"decision\": \"yes\"}'', [CHR 0x0A], fence]
     = (JStr ''yes'', JStr ''No reason provided'')"
  by (simp add: get_combination_feedback_def parse_response_def cleaned_response_def replace_def
      strip_def isspace_def fence_def dict_get_def)

text \<open>
  Claim C2. For every decision other than the string \<open>yes\<close>, every rationale, every
  catalog and every selection of product identifiers, \<open>recommend_complementary_products\<close>
  returns the empty sequence.
\<close>
theorem recommend_not_yes_empty:
  "decision \<noteq> JStr ''yes'' \<Longrightarrow>
   recommend_complementary_products image_open user_selected_product_ids decision reason data = Inr []"
  by (simp add: recommend_complementary_products_def)

text \<open>The decision \<open>no\<close> on two selected shirts.\<close>
theorem recommend_not_yes_empty_witness:
  "recommend_complementary_products (\<lambda>p. None :: unit option) [1, 2] (JStr ''no'')
     (JStr ''Two blue casual shirts cannot be combined'')
     [\<lparr>id_col = 1, productDisplayName = ''Polo'', baseColour = ''Blue'', usage = ''Casual'',
        subCategory = ''Topwear'', gender = ''Men'', filename = ''1.jpg''\<rparr>,
      \<lparr>id_col = 2, productDisplayName = ''Tee'', baseColour = ''Blue'', usage = ''Casual'',
        subCategory = ''Topwear'', gender = ''Men'', filename = ''2.jpg''\<rparr>] = Inr []"
  using recommend_not_yes_empty [of "JStr ''no''"] by simp

text \<open>
  Claim C6, amended. The claim says that the fallback to the first selected product's raw
  attributes triggers only when both extractions fail. With the decision \<open>yes\<close> and the
  selected identifiers in the catalog, the fallback triggers whenever at least one of the
  color extraction and the usage extraction fails: the result is then the rows that match
  the raw attributes of the first selected row, and an extraction that succeeded alone is
  discarded. The extracted values are used only when both extractions succeed.
\<close>
theorem fallback_unless_both_extracted:
  assumes "\<forall>pid\<in>set ids. pid \<in> id_col ` set data"
    and "selected_details ids data = Inr sel"
  shows "(extracted_color (lower r) = None \<or> extracted_usage (lower r) = None
          \<longrightarrow> recommend_complementary_products image_open ids (JStr ''yes'') (JStr r) data =
                Inr (map project (filter (fallback_match sel) data))) \<and>
         (\<forall>color usage_kw. extracted_color (lower r) = Some color \<and> extracted_usage (lower r) = Some usage_kw
          \<longrightarrow> recommend_complementary_products image_open ids (JStr ''yes'') (JStr r) data =
                Inr (map project (filter (extracted_match color usage_kw sel) data)))"
  using recommend_yes [OF assms, of image_open r]
  by (auto split: option.splits)

text \<open>A rationale with no keyword at all: the fallback returns the selected red shirt.\<close>
theorem fallback_unless_both_extracted_witness:
  "recommend_complementary_products (\<lambda>p. None :: unit option) [1, 2] (JStr ''yes'')
     (JStr ''A nice pair'')
     [\<lparr>id_col = 1, productDisplayName = ''Red Shirt'', baseColour = ''Red'', usage = ''Casual'',
        subCategory = ''Topwear'', gender = ''men'', filename = ''1.jpg''\<rparr>,
      \<lparr>id_col = 2, productDisplayName = ''Blue Jeans'', baseColour = ''Blue'', usage = ''Casual'',
        subCategory = ''Bottomwear'', gender = ''men'', filename = ''2.jpg''\<rparr>]
   = Inr [(''Red Shirt'', ''Red'', ''Casual'', ''Topwear'', ''men'')]"
proof -
  let ?r1 = "\<lparr>id_col = 1, productDisplayName = ''Red Shirt'', baseColour = ''Red'', usage = ''Casual'',
        subCategory = ''Topwear'', gender = ''men'', filename = ''1.jpg''\<rparr>"
  let ?r2 = "\<lparr>id_col = 2, productDisplayName = ''Blue Jeans'', baseColour = ''Blue'', usage = ''Casual'',
        subCategory = ''Bottomwear'', gender = ''men'', filename = ''2.jpg''\<rparr>"
  have present: "\<forall>pid\<in>set [1, 2]. pid \<in> id_col ` set [?r1, ?r2]" by simp
  have sel: "selected_details [1, 2] [?r1, ?r2] = Inr ?r1"
    by (simp add: selected_details_def)
  have none: "extracted_usage (lower ''A nice pair'') = None"
    by (simp add: extracted_usage_def usage_keywords_def lower_def lower_char_def upper_lower_def)
  from fallback_unless_both_extracted [OF present sel, of "''A nice pair''" "\<lambda>p. None :: unit option"] none
  show ?thesis
    by (simp add: fallback_match_def project_def lower_def lower_char_def upper_lower_def)
qed

text \<open>
  Counterexample to C6 as stated: the rationale names the color \<open>blue\<close> and no usage. The
  color extraction succeeds, and the fallback triggers all the same: the row returned is
  the red shirt, matched on the raw attributes of the first selected row.
\<close>
theorem fallback_with_color_extracted_counterexample:
  "extracted_color (lower ''They share a blue tone'') = Some ''blue'' \<and>
   extracted_usage (lower ''They share a blue tone'') = None \<and>
   recommend_complementary_products (\<lambda>p. None :: unit option) [1, 2] (JStr ''yes'')
     (JStr ''They share a blue tone'')
     [\<lparr>id_col = 1, productDisplayName = ''Red Shirt'', baseColour = ''Red'', usage = ''Casual'',
        subCategory = ''Topwear'', gender = ''men'', filename = ''1.jpg''\<rparr>,
      \<lparr>id_col = 2, productDisplayName = ''Blue Jeans'', baseColour = ''Blue'', usage = ''Casual'',
        subCategory = ''Bottomwear'', gender = ''men'', filename = ''2.jpg''\<rparr>]
   = Inr [(''Red Shirt'', ''Red'', ''Casual'', ''Topwear'', ''men'')]"
  by (simp add: recommend_complementary_products_def load_image_from_dataset_def
      selected_details_def extracted_color_def extracted_usage_def color_keywords_def
      usage_keywords_def lower_def lower_char_def upper_lower_def fallback_match_def project_def)

text \<open>
  Claim C7, amended. The claim says that selecting (A, C) returns the bottomwear rows and
  excludes B. For the catalog A, B, C of the scenario, with any identifiers, names and
  image files, the decision \<open>yes\<close> and any rationale that mentions \<open>blue\<close> and \<open>casual\<close>,
  selecting (A, C) returns the rows that share the subcategory of the first selected row
  A: the topwear rows A and B, and not the bottomwear row C.
\<close>
theorem scenario_first_selected_subcategory:
  assumes "substring_of ''blue'' (lower r)" and "substring_of ''casual'' (lower r)"
    and "A = \<lparr>id_col = ida, productDisplayName = na, baseColour = ''blue'', usage = ''casual'',
               subCategory = ''topwear'', gender = ''men'', filename = fa\<rparr>"
    and "B = \<lparr>id_col = idb, productDisplayName = nb, baseColour = ''blue'', usage = ''casual'',
               subCategory = ''topwear'', gender = ''men'', filename = fb\<rparr>"
    and "C = \<lparr>id_col = idc, productDisplayName = nc, baseColour = ''blue'', usage = ''casual'',
               subCategory = ''bottomwear'', gender = ''men'', filename = fc\<rparr>"
  shows "recommend_complementary_products image_open [ida, idc] (JStr ''yes'') (JStr r) [A, B, C] =
           Inr [project A, project B]"
proof -
  have present: "\<forall>pid\<in>set [ida, idc]. pid \<in> id_col ` set [A, B, C]"
    using assms(3,5) by simp
  have sel: "selected_details [ida, idc] [A, B, C] = Inr A"
    using assms(3) by (simp add: selected_details_def)
  have col: "extracted_color (lower r) = Some ''blue''"
    using assms(1) by (simp add: extracted_color_def color_keywords_def)
  have use: "extracted_usage (lower r) = Some ''casual''"
    using assms(2) by (simp add: extracted_usage_def usage_keywords_def)
  have a: "extracted_match ''blue'' ''casual'' A A"
    using assms(3) by (simp add: extracted_match_def lower_def lower_char_def upper_lower_def)
  have b: "extracted_match ''blue'' ''casual'' A B"
    using assms(3,4) by (simp add: extracted_match_def lower_def lower_char_def upper_lower_def)
  have c: "\<not> extracted_match ''blue'' ''casual'' A C"
    using assms(3,5) by (simp add: extracted_match_def lower_def lower_char_def upper_lower_def)
  show ?thesis
    using recommend_yes [OF present sel, of image_open r] col use a b c by simp
qed

text \<open>The scenario with the identifiers 1, 2 and 3.\<close>
theorem scenario_first_selected_subcategory_witness:
  "recommend_complementary_products (\<lambda>p. None :: unit option) [1, 3] (JStr ''yes'')
     (JStr ''Blue on blue works for a Casual look'')
     [\<lparr>id_col = 1, productDisplayName = ''A'', baseColour = ''blue'', usage = ''casual'',
        subCategory = ''topwear'', gender = ''men'', filename = ''a.jpg''\<rparr>,
      \<lparr>id_col = 2, productDisplayName = ''B'', baseColour = ''blue'', usage = ''casual'',
        subCategory = ''topwear'', gender = ''men'', filename = ''b.jpg''\<rparr>,
      \<lparr>id_col = 3, productDisplayName = ''C'', baseColour = ''blue'', usage = ''casual'',
        subCategory = ''bottomwear'', gender = ''men'', filename = ''c.jpg''\<rparr>]
   = Inr [(''A'', ''blue'', ''casual'', ''topwear'', ''men''),
          (''B'', ''blue'', ''casual'', ''topwear'', ''men'')]"
proof -
  have blue: "substring_of ''blue'' (lower ''Blue on blue works for a Casual look'')"
    by (simp add: lower_def lower_char_def upper_lower_def)
  have casual: "substring_of ''casual'' (lower ''Blue on blue works for a Casual look'')"
    by (simp add: lower_def lower_char_def upper_lower_def)
  from scenario_first_selected_subcategory [where image_open = "\<lambda>p. None :: unit option"
      and ida = 1 and na = "''A''" and fa = "''a.jpg''" and idb = 2 and nb = "''B''" and fb = "''b.jpg''"
      and idc = 3 and nc = "''C''" and fc = "''c.jpg''", OF blue casual refl refl refl]
  show ?thesis by (simp add: project_def)
qed

text \<open>
  Counterexample to C7 as stated: on the scenario's catalog the filter returns A and B,
  both topwear; B is not excluded and C is not returned.
\<close>
theorem scenario_excludes_bottomwear_counterexample:
  "recommend_complementary_products (\<lambda>p. None :: unit option) [1, 3] (JStr ''yes'')
     (JStr ''The blue shirt and the blue jeans make a casual outfit'')
     [\<lparr>id_col = 1, productDisplayName = ''A'', baseColour = ''blue'', usage = ''casual'',
        subCategory = ''topwear'', gender = ''men'', filename = ''a.jpg''\<rparr>,
      \<lparr>id_col = 2, productDisplayName = ''B'', baseColour = ''blue'', usage = ''casual'',
        subCategory = ''topwear'', gender = ''men'', filename = ''b.jpg''\<rparr>,
      \<lparr>id_col = 3, productDisplayName = ''C'', baseColour = ''blue'', usage = ''casual'',
        subCategory = ''bottomwear'', gender = ''men'', filename = ''c.jpg''\<rparr>]
   = Inr [(''A'', ''blue'', ''casual'', ''topwear'', ''men''),
          (''B'', ''blue'', ''casual'', ''topwear'', ''men'')]"
  by (simp add: recommend_complementary_products_def load_image_from_dataset_def
      selected_details_def extracted_color_def extracted_usage_def color_keywords_def
      usage_keywords_def lower_def lower_char_def upper_lower_def extracted_match_def project_def)

text \<open>
  Claim C9, amended. The claim says that the fallback returns the empty sequence whenever
  the selected product's gender holds an uppercase letter. In the fallback branch the raw
  gender column is compared with the lowercased gender of the first selected row; when
  that gender holds an uppercase letter, every row returned has the lowercased gender as
  its raw gender, so none has the selected row's own gender, the selected row is not
  returned, and the result is empty whenever no catalog row carries the lowercased
  gender.
\<close>
theorem fallback_gender_lowercased:
  assumes "\<forall>pid\<in>set ids. pid \<in> id_col ` set data"
    and "selected_details ids data = Inr sel"
    and "extracted_color (lower r) = None \<or> extracted_usage (lower r) = None"
    and "\<exists>c\<in>set (gender sel). isupper c"
  shows "\<exists>ps. recommend_complementary_products image_open ids (JStr ''yes'') (JStr r) data =
                Inr (map project ps) \<and>
              set ps \<subseteq> set data \<and> sel \<notin> set ps \<and>
              (\<forall>p\<in>set ps. gender p = lower (gender sel) \<and> gender p \<noteq> gender sel) \<and>
              ((\<forall>p\<in>set data. gender p \<noteq> lower (gender sel)) \<longrightarrow> ps = [])"
proof -
  let ?ps = "filter (fallback_match sel) data"
  have neq: "lower (gender sel) \<noteq> gender sel"
    by (rule lower_changes [OF assms(4)])
  have res: "recommend_complementary_products image_open ids (JStr ''yes'') (JStr r) data =
      Inr (map project ?ps)"
    using recommend_yes [OF assms(1,2), of image_open r] assms(3)
    by (auto split: option.splits)
  have g: "\<forall>p\<in>set ?ps. gender p = lower (gender sel) \<and> gender p \<noteq> gender sel"
    using neq by (auto simp: fallback_match_def)
  then have notin: "sel \<notin> set ?ps" by blast
  have empty: "(\<forall>p\<in>set data. gender p \<noteq> lower (gender sel)) \<longrightarrow> ?ps = []"
    by (auto simp: filter_empty_conv fallback_match_def)
  have sub: "set ?ps \<subseteq> set data" by simp
  show ?thesis
    using res sub notin g empty by (intro exI [of _ ?ps] conjI)
qed

text \<open>Two rows of gender \<open>Men\<close>: the fallback finds nothing.\<close>
theorem fallback_gender_lowercased_witness:
  "recommend_complementary_products (\<lambda>p. None :: unit option) [1, 2] (JStr ''yes'')
     (JStr ''They go well together'')
     [\<lparr>id_col = 1, productDisplayName = ''Polo'', baseColour = ''Red'', usage = ''Casual'',
        subCategory = ''Topwear'', gender = ''Men'', filename = ''1.jpg''\<rparr>,
      \<lparr>id_col = 2, productDisplayName = ''Tee'', baseColour = ''Red'', usage = ''Casual'',
        subCategory = ''Topwear'', gender = ''Men'', filename = ''2.jpg''\<rparr>] = Inr []"
proof -
  let ?r1 = "\<lparr>id_col = 1, productDisplayName = ''Polo'', baseColour = ''Red'', usage = ''Casual'',
        subCategory = ''Topwear'', gender = ''Men'', filename = ''1.jpg''\<rparr>"
  let ?r2 = "\<lparr>id_col = 2, productDisplayName = ''Tee'', baseColour = ''Red'', usage = ''Casual'',
        subCategory = ''Topwear'', gender = ''Men'', filename = ''2.jpg''\<rparr>"
  have present: "\<forall>pid\<in>set [1, 2]. pid \<in> id_col ` set [?r1, ?r2]" by simp
  have sel: "selected_details [1, 2] [?r1, ?r2] = Inr ?r1"
    by (simp add: selected_details_def)
  have none: "extracted_color (lower ''They go well together'') = None \<or>
      extracted_usage (lower ''They go well together'') = None"
    by (simp add: extracted_color_def color_keywords_def lower_def lower_char_def upper_lower_def)
  have upper: "\<exists>c\<in>set (gender ?r1). isupper c"
    by (simp add: isupper_def)
  have low: "\<forall>p\<in>set [?r1, ?r2]. gender p \<noteq> lower (gender ?r1)"
    by (simp add: lower_def lower_char_def upper_lower_def)
  from fallback_gender_lowercased [OF present sel none upper, of "\<lambda>p. None :: unit option"] low
  show ?thesis by auto
qed

text \<open>
  Counterexample to C9 as stated: the selected row has the gender \<open>Men\<close>, and a second row
  with the same color, usage and subcategory has the raw gender \<open>men\<close>. The fallback
  returns that second row.
\<close>
theorem fallback_lowercase_gender_row_counterexample:
  "recommend_complementary_products (\<lambda>p. None :: unit option) [1, 2] (JStr ''yes'')
     (JStr ''They go well together'')
     [\<lparr>id_col = 1, productDisplayName = ''Polo'', baseColour = ''Red'', usage = ''Casual'',
        subCategory = ''Topwear'', gender = ''Men'', filename = ''1.jpg''\<rparr>,
      \<lparr>id_col = 2, productDisplayName = ''Tee'', baseColour = ''Red'', usage = ''Casual'',
        subCategory = ''Topwear'', gender = ''men'', filename = ''2.jpg''\<rparr>]
   = Inr [(''Tee'', ''Red'', ''Casual'', ''Topwear'', ''men'')]"
  by (simp add: recommend_complementary_products_def load_image_from_dataset_def
      selected_details_def extracted_color_def extracted_usage_def color_keywords_def
      usage_keywords_def lower_def lower_char_def upper_lower_def fallback_match_def project_def)

text \<open>
  Claim C10. The filter never excludes the selected products: with the decision \<open>yes\<close>
  and the selected identifiers in the catalog, every selected row whose attributes
  satisfy the predicate of the active branch (the extracted values when both extractions
  succeed, the fallback otherwise) appears, projected to display name, color, usage,
  subcategory and gender, in the returned sequence.
\<close>
theorem selected_products_not_excluded:
  assumes "\<forall>pid\<in>set ids. pid \<in> id_col ` set data"
    and "selected_details ids data = Inr sel"
    and "p \<in> set data" and "id_col p \<in> set ids"
    and "case (extracted_color (lower r), extracted_usage (lower r)) of
           (Some color, Some usage_kw) \<Rightarrow> extracted_match color usage_kw sel p
         | _ \<Rightarrow> fallback_match sel p"
  shows "\<exists>rows. recommend_complementary_products image_open ids (JStr ''yes'') (JStr r) data = Inr rows \<and>
           project p \<in> set rows"
  using recommend_yes [OF assms(1,2), of image_open r] assms(3,5)
  by (auto split: option.splits)

text \<open>A white formal shirt is selected and the rationale names \<open>white\<close> and \<open>formal\<close>.\<close>
theorem selected_products_not_excluded_witness:
  "\<exists>rows. recommend_complementary_products (\<lambda>p. None :: unit option) [1, 2] (JStr ''yes'')
     (JStr ''White and formal'')
     [\<lparr>id_col = 1, productDisplayName = ''Oxford Shirt'', baseColour = ''White'', usage = ''Formal'',
        subCategory = ''Topwear'', gender = ''Men'', filename = ''1.jpg''\<rparr>,
      \<lparr>id_col = 2, productDisplayName = ''Trousers'', baseColour = ''Black'', usage = ''Formal'',
        subCategory = ''Bottomwear'', gender = ''Men'', filename = ''2.jpg''\<rparr>] = Inr rows \<and>
     (''Oxford Shirt'', ''White'', ''Formal'', ''Topwear'', ''Men'') \<in> set rows"
proof -
  let ?r1 = "\<lparr>id_col = 1, productDisplayName = ''Oxford Shirt'', baseColour = ''White'', usage = ''Formal'',
        subCategory = ''Topwear'', gender = ''Men'', filename = ''1.jpg''\<rparr>"
  let ?r2 = "\<lparr>id_col = 2, productDisplayName = ''Trousers'', baseColour = ''Black'', usage = ''Formal'',
        subCategory = ''Bottomwear'', gender = ''Men'', filename = ''2.jpg''\<rparr>"
  have present: "\<forall>pid\<in>set [1, 2]. pid \<in> id_col ` set [?r1, ?r2]" by simp
  have sel: "selected_details [1, 2] [?r1, ?r2] = Inr ?r1"
    by (simp add: selected_details_def)
  have mem: "?r1 \<in> set [?r1, ?r2]" by simp
  have idm: "id_col ?r1 \<in> set [1, 2]" by simp
  have act: "case (extracted_color (lower ''White and formal''), extracted_usage (lower ''White and formal'')) of
           (Some color, Some usage_kw) \<Rightarrow> extracted_match color usage_kw ?r1 ?r1
         | _ \<Rightarrow> fallback_match ?r1 ?r1"
    by (simp add: extracted_color_def extracted_usage_def color_keywords_def usage_keywords_def
        lower_def lower_char_def upper_lower_def extracted_match_def)
  from selected_products_not_excluded [OF present sel mem idm act, of "\<lambda>p. None :: unit option"]
  show ?thesis by (simp add: project_def)
qed

end
